theory Spec2Isabelle
  imports Main "HOL-Library.Sublist"
begin

section \<open>Text, character classes and regular expressions\<close>

text \<open>
  Both scripts read their input files into Python \<open>str\<close> values and work on them with
  the \<open>re\<close> module. A text is a \<^typ>\<open>string\<close>; a \<^typ>\<open>char\<close> stands for the code point
  of the same number, so the texts of this development are the ones over U+0000 to U+00FF.
  On that range the classes below are the ones Python's \<open>re\<close> uses for \<open>str\<close> patterns:
  \<open>\w\<close> is \<open>str.isalnum\<close> or the underscore, \<open>\s\<close> is \<open>str.isspace\<close>, and
  \<open>str.isupper\<close> holds of the cased letters in upper case.
\<close>

abbreviation NL :: char where
  "NL \<equiv> CHR 0x0A"

definition is_word :: "char \<Rightarrow> bool" where
  "is_word c = (let n = (of_char c :: nat) in
      (48 \<le> n \<and> n \<le> 57) \<or> (65 \<le> n \<and> n \<le> 90) \<or> n = 95 \<or> (97 \<le> n \<and> n \<le> 122) \<or>
      n = 170 \<or> (178 \<le> n \<and> n \<le> 179) \<or> n = 181 \<or> (185 \<le> n \<and> n \<le> 186) \<or>
      (188 \<le> n \<and> n \<le> 190) \<or> (192 \<le> n \<and> n \<le> 214) \<or> (216 \<le> n \<and> n \<le> 246) \<or>
      248 \<le> n)"

definition is_space :: "char \<Rightarrow> bool" where
  "is_space c = (let n = (of_char c :: nat) in
      (9 \<le> n \<and> n \<le> 13) \<or> (28 \<le> n \<and> n \<le> 32) \<or> n = 133 \<or> n = 160)"

definition isupper :: "char \<Rightarrow> bool" where
  "isupper c = (let n = (of_char c :: nat) in
      (65 \<le> n \<and> n \<le> 90) \<or> (192 \<le> n \<and> n \<le> 214) \<or> (216 \<le> n \<and> n \<le> 222))"

text \<open>
  The character classes the two scripts use: \<open>\w\<close>, \<open>\s\<close>, the dot (every character but
  the newline), \<open>[\s\S]\<close>, a negated set of literal characters, and a negated set that
  also excludes \<open>\s\<close>.
\<close>

datatype cclass = Word | Space | Dot | AnyChar | NoneOf string | NonSpaceNoneOf string

fun in_class :: "cclass \<Rightarrow> char \<Rightarrow> bool" where
  "in_class Word c = is_word c"
| "in_class Space c = is_space c"
| "in_class Dot c = (c \<noteq> NL)"
| "in_class AnyChar c = True"
| "in_class (NoneOf cs) c = (c \<notin> set cs)"
| "in_class (NonSpaceNoneOf cs) c = (\<not> is_space c \<and> c \<notin> set cs)"

text \<open>
  The fragment of regular expressions the scripts are written in. Every repetition is over
  a single character class: \<open>Star\<close> is the greedy \<open>X*\<close>, \<open>Plus\<close> the greedy \<open>X+\<close>,
  \<open>LazyStar\<close> the non-greedy \<open>X*?\<close>. \<open>Opt\<close> is the greedy \<open>(?:r)?\<close>, \<open>Grp\<close> a capturing
  group, \<open>Eol\<close> the anchor \<open>$\<close> under \<open>re.MULTILINE\<close>.
\<close>

datatype rx = Lit string | Star cclass | Plus cclass | LazyStar cclass
  | Opt rx | Alt rx rx | Seq rx rx | Grp rx | Eol

fun Cat :: "rx list \<Rightarrow> rx" where
  "Cat [] = Lit []"
| "Cat [r] = r"
| "Cat (r # rs) = Seq r (Cat rs)"

text \<open>
  Matching is the backtracking search of \<open>re\<close>, in continuation-passing style: the
  continuation is the rest of the pattern, it receives the groups captured so far and the
  text not yet consumed, and a choice point tries its alternatives in the priority order of
  the engine (longest first for a greedy repetition, shortest first for a lazy one, the
  left alternative first), keeping the first one under which the rest of the pattern
  succeeds.
\<close>

type_synonym mres = "(string list \<times> string) option"

fun lit :: "string \<Rightarrow> (string \<Rightarrow> mres) \<Rightarrow> string \<Rightarrow> mres" where
  "lit [] k s = k s"
| "lit (c # cs) k [] = None"
| "lit (c # cs) k (x # s) = (if x = c then lit cs k s else None)"

fun star_greedy :: "cclass \<Rightarrow> (string \<Rightarrow> mres) \<Rightarrow> string \<Rightarrow> mres" where
  "star_greedy cl k [] = k []"
| "star_greedy cl k (x # s) =
     (if in_class cl x
      then (case star_greedy cl k s of Some r \<Rightarrow> Some r | None \<Rightarrow> k (x # s))
      else k (x # s))"

fun star_lazy :: "cclass \<Rightarrow> (string \<Rightarrow> mres) \<Rightarrow> string \<Rightarrow> mres" where
  "star_lazy cl k [] = k []"
| "star_lazy cl k (x # s) =
     (case k (x # s) of Some r \<Rightarrow> Some r
      | None \<Rightarrow> if in_class cl x then star_lazy cl k s else None)"

fun plus_greedy :: "cclass \<Rightarrow> (string \<Rightarrow> mres) \<Rightarrow> string \<Rightarrow> mres" where
  "plus_greedy cl k [] = None"
| "plus_greedy cl k (x # s) = (if in_class cl x then star_greedy cl k s else None)"

primrec rmatch :: "rx \<Rightarrow> (string list \<Rightarrow> string \<Rightarrow> mres) \<Rightarrow> string list \<Rightarrow> string \<Rightarrow> mres" where
  "rmatch (Lit l) k caps s = lit l (k caps) s"
| "rmatch (Star cl) k caps s = star_greedy cl (k caps) s"
| "rmatch (Plus cl) k caps s = plus_greedy cl (k caps) s"
| "rmatch (LazyStar cl) k caps s = star_lazy cl (k caps) s"
| "rmatch (Opt r) k caps s =
     (case rmatch r k caps s of Some y \<Rightarrow> Some y | None \<Rightarrow> k caps s)"
| "rmatch (Alt a b) k caps s =
     (case rmatch a k caps s of Some y \<Rightarrow> Some y | None \<Rightarrow> rmatch b k caps s)"
| "rmatch (Seq a b) k caps s = rmatch a (rmatch b k) caps s"
| "rmatch (Grp r) k caps s =
     rmatch r (\<lambda>caps' s'. k (caps' @ [take (length s - length s') s]) s') caps s"
| "rmatch Eol k caps s =
     (case s of [] \<Rightarrow> k caps [] | x # _ \<Rightarrow> if x = NL then k caps s else None)"

text \<open>
  A match of the pattern at the start of the text: the captured groups and the number of
  characters the match spans.
\<close>

definition match_at :: "rx \<Rightarrow> string \<Rightarrow> (string list \<times> nat) option" where
  "match_at r s =
     (case rmatch r (\<lambda>caps s'. Some (caps, s')) [] s of
        None \<Rightarrow> None
      | Some (caps, s') \<Rightarrow> Some (caps, length s - length s'))"

text \<open>
  \<open>re.finditer\<close>: the matches from left to right, none overlapping another. At each
  position the pattern is tried; after a match the scan goes on where the match ended
  (\<open>skip\<close> counts the characters of it still to pass). Each match is given by its start
  offset and its groups. None of the patterns below matches the empty text.
\<close>

fun finditer :: "rx \<Rightarrow> nat \<Rightarrow> nat \<Rightarrow> string \<Rightarrow> (nat \<times> string list) list" where
  "finditer r skip off [] = []"
| "finditer r (Suc n) off (c # s) = finditer r n (Suc off) s"
| "finditer r 0 off (c # s) =
     (case match_at r (c # s) of
        None \<Rightarrow> finditer r 0 (Suc off) s
      | Some (caps, n) \<Rightarrow> (off, caps) # finditer r (n - 1) (Suc off) s)"

text \<open>\<open>match.group(i)\<close> for \<open>i\<close> from 1; a group that took no part in the match reads as empty.\<close>

definition group :: "nat \<Rightarrow> string list \<Rightarrow> string" where
  "group i caps = (if 0 < i \<and> i \<le> length caps then caps ! (i - 1) else [])"

text \<open>\<open>re.findall\<close> for a pattern with one group: the text of group 1 of every match.\<close>

definition findall :: "rx \<Rightarrow> string \<Rightarrow> string list" where
  "findall r s = map (\<lambda>(off, caps). group 1 caps) (finditer r 0 0 s)"

text \<open>\<open>re.sub(pattern, '', text)\<close>: the text without its matches.\<close>

fun sub_empty :: "rx \<Rightarrow> nat \<Rightarrow> string \<Rightarrow> string" where
  "sub_empty r skip [] = []"
| "sub_empty r (Suc n) (c # s) = sub_empty r n s"
| "sub_empty r 0 (c # s) =
     (case match_at r (c # s) of
        None \<Rightarrow> c # sub_empty r 0 s
      | Some (caps, n) \<Rightarrow> if n = 0 then c # sub_empty r 0 s else sub_empty r (n - 1) s)"

subsection \<open>String methods\<close>

definition startswith :: "string \<Rightarrow> string \<Rightarrow> bool" where
  "startswith s p = prefix p s"

text \<open>\<open>sub in s\<close> for strings.\<close>

fun contains :: "string \<Rightarrow> string \<Rightarrow> bool" where
  "contains sub [] = (sub = [])"
| "contains sub (c # s) = (prefix sub (c # s) \<or> contains sub s)"

text \<open>
  \<open>s.replace(old, new)\<close> for a non-empty \<open>old\<close>: every occurrence from left to right, none
  overlapping another.
\<close>

fun replace_from :: "nat \<Rightarrow> string \<Rightarrow> string \<Rightarrow> string \<Rightarrow> string" where
  "replace_from skip old new [] = []"
| "replace_from (Suc n) old new (c # s) = replace_from n old new s"
| "replace_from 0 old new (c # s) =
     (if prefix old (c # s) then new @ replace_from (length old - 1) old new s
      else c # replace_from 0 old new s)"

definition replace :: "string \<Rightarrow> string \<Rightarrow> string \<Rightarrow> string" where
  "replace s old new = replace_from 0 old new s"

definition rstrip :: "string \<Rightarrow> string \<Rightarrow> string" where
  "rstrip s cs = rev (dropWhile (\<lambda>c. c \<in> set cs) (rev s))"

text \<open>\<open>str(n)\<close> for an integer.\<close>

fun str_nat :: "nat \<Rightarrow> string" where
  "str_nat n = (if n < 10 then [char_of (48 + n)] else str_nat (n div 10) @ [char_of (48 + n mod 10)])"

declare str_nat.simps [simp del]

definition str_int :: "int \<Rightarrow> string" where
  "str_int i = (if i < 0 then CHR ''-'' # str_nat (nat (- i)) else str_nat (nat i))"

text \<open>
  A dictionary whose values are lists, in insertion order:
  \<open>if k not in d: d[k] = []\<close> followed by \<open>d[k].append(v)\<close>.
\<close>

fun dict_append :: "('k \<times> 'v list) list \<Rightarrow> 'k \<Rightarrow> 'v \<Rightarrow> ('k \<times> 'v list) list" where
  "dict_append [] k v = [(k, [v])]"
| "dict_append ((k', vs) # d) k v =
     (if k' = k then (k', vs @ [v]) # d else (k', vs) # dict_append d k v)"

text \<open>\<open>d[k] = v\<close> on a dictionary in insertion order.\<close>

fun dict_set :: "('k \<times> 'v) list \<Rightarrow> 'k \<Rightarrow> 'v \<Rightarrow> ('k \<times> 'v) list" where
  "dict_set [] k v = [(k, v)]"
| "dict_set ((k', v') # d) k v = (if k' = k then (k', v) # d else (k', v') # dict_set d k v)"

section \<open>function\_analyzer.py\<close>

subsection \<open>The patterns\<close>

text \<open>\<open>function\s+(\w+)\s*\(\<close>\<close>

definition def_pattern1 :: rx where
  "def_pattern1 = Cat [Lit ''function'', Plus Space, Grp (Plus Word), Star Space, Lit ''('']"

text \<open>\<open>(?:static\s+)?(\w+)\s*\([^)]*\)\s*{\<close>\<close>

definition def_pattern2 :: rx where
  "def_pattern2 = Cat [Opt (Seq (Lit ''static'') (Plus Space)), Grp (Plus Word), Star Space,
     Lit ''('', Star (NoneOf '')''), Lit '')'', Star Space, Lit ''{'']"

text \<open>\<open>(?:const|let|var)\s+(\w+)\s*=\s*(?:\([^)]*\)|[^=]+)\s*=>\<close>\<close>

definition def_pattern3 :: rx where
  "def_pattern3 = Cat [Alt (Lit ''const'') (Alt (Lit ''let'') (Lit ''var'')), Plus Space,
     Grp (Plus Word), Star Space, Lit ''='', Star Space,
     Alt (Cat [Lit ''('', Star (NoneOf '')''), Lit '')'']) (Plus (NoneOf ''='')),
     Star Space, Lit ''=>'']"

text \<open>\<open>(\w+)\s*:\s*function\s*\(\<close>\<close>

definition def_pattern4 :: rx where
  "def_pattern4 = Cat [Grp (Plus Word), Star Space, Lit '':'', Star Space, Lit ''function'',
     Star Space, Lit ''('']"

text \<open>\<open>(\w+)\s*\(\<close>\<close>

definition call_pattern :: rx where
  "call_pattern = Cat [Grp (Plus Word), Star Space, Lit ''('']"

text \<open>\<open>new\s+(\w+)\s*\(\<close>\<close>

definition ref_pattern1 :: rx where
  "ref_pattern1 = Cat [Lit ''new'', Plus Space, Grp (Plus Word), Star Space, Lit ''('']"

text \<open>\<open>(\w+)\.(\w+)\<close>\<close>

definition ref_pattern2 :: rx where
  "ref_pattern2 = Cat [Grp (Plus Word), Lit ''.'', Grp (Plus Word)]"

text \<open>\<open>//.*$\<close> with \<open>re.MULTILINE\<close>, and \<open>/\*[\s\S]*?\*/\<close>\<close>

definition line_comment :: rx where
  "line_comment = Cat [Lit ''//'', Star Dot, Eol]"

definition block_comment :: rx where
  "block_comment = Cat [Lit ''/*'', LazyStar AnyChar, Lit ''*/'']"

subsection \<open>Extraction\<close>

record call =
  call_name :: string
  call_line :: nat

datatype ref_type = Instantiation | Static_reference

record class_ref =
  ref_type :: ref_type
  ref_name :: string
  ref_member :: "string option"
  ref_line :: nat

record analysis =
  definitions :: "string set"
  calls :: "call list"
  class_references :: "class_ref list"

text \<open>\<open>content[:match.start()].count('\n') + 1\<close>\<close>

definition line_of :: "string \<Rightarrow> nat \<Rightarrow> nat" where
  "line_of content start = count_list (take start content) NL + 1"

definition extract_function_definitions :: "string \<Rightarrow> string set" where
  "extract_function_definitions content =
     set (findall def_pattern1 content) \<union> set (findall def_pattern2 content) \<union>
     set (findall def_pattern3 content) \<union> set (findall def_pattern4 content)"

definition call_denylist :: "string list" where
  "call_denylist = [''if'', ''for'', ''while'', ''switch'', ''catch'', ''function'',
     ''return'', ''throw'', ''new'', ''typeof'', ''instanceof'',
     ''console'', ''Array'', ''Object'', ''String'', ''Number'',
     ''Date'', ''Math'', ''JSON'', ''parseInt'', ''parseFloat'']"

definition extract_function_calls :: "string \<Rightarrow> call list" where
  "extract_function_calls content =
     map (\<lambda>(start, caps). \<lparr>call_name = group 1 caps, call_line = line_of content start\<rparr>)
       (filter (\<lambda>(start, caps). group 1 caps \<notin> set call_denylist)
          (finditer call_pattern 0 0 content))"

text \<open>
  In the second loop \<open>class_name[0]\<close> is the first character of a match of \<open>\w+\<close>, which
  is never empty.
\<close>

definition extract_class_references :: "string \<Rightarrow> class_ref list" where
  "extract_class_references content =
     map (\<lambda>(start, caps). \<lparr>ref_type = Instantiation, ref_name = group 1 caps,
            ref_member = None, ref_line = line_of content start\<rparr>)
       (finditer ref_pattern1 0 0 content) @
     map (\<lambda>(start, caps). \<lparr>ref_type = Static_reference, ref_name = group 1 caps,
            ref_member = Some (group 2 caps), ref_line = line_of content start\<rparr>)
       (filter (\<lambda>(start, caps). case group 1 caps of [] \<Rightarrow> False | c # _ \<Rightarrow> isupper c)
          (finditer ref_pattern2 0 0 content))"

definition strip_comments :: "string \<Rightarrow> string" where
  "strip_comments content = sub_empty block_comment 0 (sub_empty line_comment 0 content)"

text \<open>The body of \<open>analyze_file\<close> once the file is read.\<close>

definition analyze_content :: "string \<Rightarrow> analysis" where
  "analyze_content text =
     (let content = strip_comments text in
      \<lparr>definitions = extract_function_definitions content,
       calls = extract_function_calls content,
       class_references = extract_class_references content\<rparr>)"

text \<open>
  Reading a file gives its text or raises (\<open>OSError\<close>, \<open>UnicodeDecodeError\<close>). A file of
  the project is its path with what reading it gives.
\<close>

datatype io_error = IOError string

type_synonym project_file = "string \<times> (io_error + string)"

definition analyze_file :: "io_error + string \<Rightarrow> io_error + analysis" where
  "analyze_file rd = (case rd of Inl e \<Rightarrow> Inl e | Inr text \<Rightarrow> Inr (analyze_content text))"

subsection \<open>Aggregation and report\<close>

definition gas_builtins :: "string set" where
  "gas_builtins = set [''SpreadsheetApp'', ''GmailApp'', ''DriveApp'', ''PropertiesService'',
     ''CacheService'', ''UrlFetchApp'', ''Utilities'', ''ScriptApp'',
     ''CalendarApp'', ''DocumentApp'', ''FormApp'', ''GroupsApp'',
     ''HtmlService'', ''LanguageApp'', ''LockService'', ''MailApp'',
     ''Session'', ''SitesApp'', ''SlidesApp'', ''Logger'', ''console'']"

record call_loc =
  loc_file :: string
  loc_line :: nat

record ref_loc =
  rloc_file :: string
  rloc_line :: nat
  rloc_type :: ref_type
  rloc_member :: string

text \<open>The four collections \<open>main\<close> fills in its first pass.\<close>

record collected =
  all_definitions :: "string set"
  all_calls :: "(string \<times> call_loc list) list"
  all_class_refs :: "(string \<times> ref_loc list) list"
  file_definitions :: "(string \<times> string set) list"

definition track_calls ::
  "string \<Rightarrow> (string \<times> call_loc list) list \<Rightarrow> call list \<Rightarrow> (string \<times> call_loc list) list" where
  "track_calls filepath d cs =
     foldl (\<lambda>d c. dict_append d (call_name c) \<lparr>loc_file = filepath, loc_line = call_line c\<rparr>) d cs"

text \<open>\<open>ref.get('member', '')\<close>: an instantiation has no member.\<close>

definition track_refs ::
  "string \<Rightarrow> (string \<times> ref_loc list) list \<Rightarrow> class_ref list \<Rightarrow> (string \<times> ref_loc list) list" where
  "track_refs filepath d rs =
     foldl (\<lambda>d r. dict_append d (ref_name r)
        \<lparr>rloc_file = filepath, rloc_line = ref_line r, rloc_type = ref_type r,
         rloc_member = (case ref_member r of None \<Rightarrow> [] | Some m \<Rightarrow> m)\<rparr>) d rs"

text \<open>
  The first pass over the files. A file that cannot be read raises in \<open>analyze_file\<close>;
  nothing catches it, so the run ends there.
\<close>

fun first_pass :: "collected \<Rightarrow> project_file list \<Rightarrow> io_error + collected" where
  "first_pass st [] = Inr st"
| "first_pass st ((filepath, rd) # fs) =
     (case analyze_file rd of
        Inl e \<Rightarrow> Inl e
      | Inr a \<Rightarrow>
          first_pass
            \<lparr>all_definitions = all_definitions st \<union> definitions a,
             all_calls = track_calls filepath (all_calls st) (calls a),
             all_class_refs = track_refs filepath (all_class_refs st) (class_references a),
             file_definitions = dict_set (file_definitions st) filepath (definitions a)\<rparr>
            fs)"

definition empty_collected :: collected where
  "empty_collected = \<lparr>all_definitions = {}, all_calls = [], all_class_refs = [],
     file_definitions = []\<rparr>"

text \<open>
  The loop that looks for a definition the called name starts with; it stops at the first
  one it finds.
\<close>

definition is_method :: "string set \<Rightarrow> string \<Rightarrow> bool" where
  "is_method defs func_name = (\<exists>class_name\<in>defs. startswith func_name class_name)"

definition find_undefined_functions ::
  "string set \<Rightarrow> (string \<times> call_loc list) list \<Rightarrow> (string \<times> call_loc list) list" where
  "find_undefined_functions defs cs =
     filter (\<lambda>(func_name, locations).
        func_name \<notin> defs \<and> func_name \<notin> gas_builtins \<and> \<not> is_method defs func_name) cs"

definition find_undefined_classes ::
  "string set \<Rightarrow> (string \<times> ref_loc list) list \<Rightarrow> (string \<times> ref_loc list) list" where
  "find_undefined_classes defs rs =
     filter (\<lambda>(class_name, locations). class_name \<notin> defs \<and> class_name \<notin> gas_builtins) rs"

record summary =
  files_analyzed :: nat
  total_definitions :: nat
  total_calls :: nat
  n_undefined_functions :: nat
  n_undefined_classes :: nat

record report =
  report_summary :: summary
  undefined_functions :: "(string \<times> call_loc list) list"
  undefined_classes :: "(string \<times> ref_loc list) list"
  definitions_list :: "string list"

text \<open>
  \<open>main\<close>: the report written to \<open>function_analysis_report.json\<close> and the value handed
  to \<open>exit\<close>. What it prints is left out. \<open>list(all_definitions)\<close> lists a set of strings
  in the order the interpreter iterates it, which the program does not fix (the hash of a
  string is salted per process): \<open>set_order\<close> is that order.
\<close>

definition analyzer_main ::
  "(string set \<Rightarrow> string list) \<Rightarrow> project_file list \<Rightarrow> io_error + (report \<times> nat)" where
  "analyzer_main set_order gs_files =
     (case first_pass empty_collected gs_files of
        Inl e \<Rightarrow> Inl e
      | Inr st \<Rightarrow>
          (let undefined_functions = find_undefined_functions (all_definitions st) (all_calls st);
               undefined_classes = find_undefined_classes (all_definitions st) (all_class_refs st)
           in Inr
             (\<lparr>report_summary =
                 \<lparr>files_analyzed = length gs_files,
                  total_definitions = card (all_definitions st),
                  total_calls = length (all_calls st),
                  n_undefined_functions = length undefined_functions,
                  n_undefined_classes = length undefined_classes\<rparr>,
               undefined_functions = undefined_functions,
               undefined_classes = undefined_classes,
               definitions_list = set_order (all_definitions st)\<rparr>,
              length undefined_functions + length undefined_classes)))"

section \<open>url\_test.py\<close>

text \<open>\<open>https?://[^\s'"<>{}|\\^`\[\]]+\<close>\<close>

definition url_pattern :: rx where
  "url_pattern = Cat [Lit ''http'', Opt (Lit ''s''), Lit ''://'',
     Plus (NonSpaceNoneOf ([CHR 0x27, CHR 0x22] @ ''<>{}|'' @ [CHR 0x5C] @ ''^'' @ [CHR 0x60] @ ''[]''))]"

text \<open>\<open>pattern.findall\<close> for a pattern without a group: the text of every match.\<close>

definition findall_whole :: "rx \<Rightarrow> string \<Rightarrow> string list" where
  "findall_whole r s = map (\<lambda>(off, caps). group 1 caps) (finditer (Grp r) 0 0 s)"

text \<open>
  \<open>extract_urls_from_file\<close>: a file that cannot be read is reported and gives no URL.
\<close>

definition extract_urls_from_file :: "project_file \<Rightarrow> (string \<times> string) list" where
  "extract_urls_from_file f =
     (case snd f of
        Inl e \<Rightarrow> []
      | Inr content \<Rightarrow>
          map (\<lambda>url. (rstrip url ''.,;:!?)'', fst f)) (findall_whole url_pattern content))"

text \<open>
  What \<open>test_url\<close> takes from outside the program: \<open>urlparse(url).hostname\<close> and
  \<open>requests.head\<close>, each returning or raising. An exception is an instance of
  \<open>Exception\<close>; \<open>is_Timeout\<close> and \<open>is_ConnectionError\<close> say whether it is an instance of
  \<open>requests.exceptions.Timeout\<close> and of \<open>requests.exceptions.ConnectionError\<close> (a
  \<open>ConnectTimeout\<close> is both), \<open>exn_str\<close> is \<open>str(e)\<close>.
\<close>

datatype exn = Exn (is_Timeout: bool) (is_ConnectionError: bool) (exn_str: string)

record world =
  urlparse_hostname :: "string \<Rightarrow> exn + string option"
  requests_head :: "string \<Rightarrow> exn + int"

datatype status = success | fail | skip

definition local_hosts :: "string list" where
  "local_hosts = [''localhost'', ''example.com'', ''127.0.0.1'']"

text \<open>The URL that is probed: a GitHub repository URL is rewritten to the API host.\<close>

definition probed_url :: "string \<Rightarrow> string" where
  "probed_url url =
     (if contains ''github.com'' url \<and> contains ''/repos/'' url \<and>
         \<not> contains ''/api.github.com'' url
      then replace url ''github.com'' ''api.github.com/repos'' else url)"

text \<open>The \<open>try\<close> block of \<open>test_url\<close>.\<close>

definition test_url_try :: "world \<Rightarrow> string \<Rightarrow> exn + (status \<times> string)" where
  "test_url_try w url =
     (case urlparse_hostname w url of
        Inl e \<Rightarrow> Inl e
      | Inr hostname \<Rightarrow>
          if hostname \<in> set (map Some local_hosts) then Inr (skip, ''Local/example URL'')
          else
            (case requests_head w (probed_url url) of
               Inl e \<Rightarrow> Inl e
             | Inr status_code \<Rightarrow>
                 if status_code < 400 then Inr (success, ''Status: '' @ str_int status_code)
                 else Inr (fail, ''Status: '' @ str_int status_code)))"

text \<open>\<open>test_url\<close>: the \<open>try\<close> block under its three \<open>except\<close> clauses, in their order.\<close>

definition test_url :: "world \<Rightarrow> string \<Rightarrow> exn + (status \<times> string)" where
  "test_url w url =
     (case test_url_try w url of
        Inr r \<Rightarrow> Inr r
      | Inl e \<Rightarrow>
          if is_Timeout e then Inr (fail, ''Timeout'')
          else if is_ConnectionError e then Inr (fail, ''Connection error'')
          else Inr (fail, exn_str e))"

record url_result =
  res_url :: string
  res_files :: "string list"
  res_status :: status
  res_message :: string

record results =
  r_success :: "url_result list"
  r_fail :: "url_result list"
  r_skip :: "url_result list"

definition add_result :: "results \<Rightarrow> url_result \<Rightarrow> results" where
  "add_result rs r =
     (case res_status r of
        success \<Rightarrow> rs\<lparr>r_success := r_success rs @ [r]\<rparr>
      | fail \<Rightarrow> rs\<lparr>r_fail := r_fail rs @ [r]\<rparr>
      | skip \<Rightarrow> rs\<lparr>r_skip := r_skip rs @ [r]\<rparr>)"

definition all_urls :: "project_file list \<Rightarrow> (string \<times> string) list" where
  "all_urls files_to_check = concat (map extract_urls_from_file files_to_check)"

definition unique_urls :: "(string \<times> string) list \<Rightarrow> (string \<times> string list) list" where
  "unique_urls us = foldl (\<lambda>d (url, filepath). dict_append d url filepath) [] us"

fun test_all :: "world \<Rightarrow> results \<Rightarrow> (string \<times> string list) list \<Rightarrow> exn + results" where
  "test_all w rs [] = Inr rs"
| "test_all w rs ((url, files) # us) =
     (case test_url w url of
        Inl e \<Rightarrow> Inl e
      | Inr (st, message) \<Rightarrow>
          test_all w
            (add_result rs \<lparr>res_url = url, res_files = files, res_status = st,
               res_message = message\<rparr>) us)"

text \<open>
  \<open>main\<close> of the link checker: the results written to \<open>url_test_results.json\<close> and the
  value handed to \<open>sys.exit\<close>.
\<close>

definition url_test_main :: "world \<Rightarrow> project_file list \<Rightarrow> exn + (results \<times> nat)" where
  "url_test_main w files_to_check =
     (case test_all w \<lparr>r_success = [], r_fail = [], r_skip = []\<rparr>
             (unique_urls (all_urls files_to_check)) of
        Inl e \<Rightarrow> Inl e
      | Inr rs \<Rightarrow> Inr (rs, length (r_fail rs)))"

section \<open>What a run is about\<close>

text \<open>
  The sets the statements below speak of, read off the files of the project and not off
  the loops of \<open>main\<close>: the names some file defines, the names some file calls, the class
  names some file refers to. A run gets to its report when every file can be read.
\<close>

definition project_definitions :: "project_file list \<Rightarrow> string set" where
  "project_definitions fs =
     (\<Union>f\<in>set fs. case snd f of Inl e \<Rightarrow> {} | Inr body \<Rightarrow> definitions (analyze_content body))"

definition called_names :: "project_file list \<Rightarrow> string set" where
  "called_names fs =
     (\<Union>f\<in>set fs. case snd f of Inl e \<Rightarrow> {}
        | Inr body \<Rightarrow> call_name ` set (calls (analyze_content body)))"

definition referenced_classes :: "project_file list \<Rightarrow> string set" where
  "referenced_classes fs =
     (\<Union>f\<in>set fs. case snd f of Inl e \<Rightarrow> {}
        | Inr body \<Rightarrow> ref_name ` set (class_references (analyze_content body)))"


text \<open>Projects of one file, and the reports of their runs.\<close>

definition foo_project :: "project_file list" where
  "foo_project = [(''Code.gs'', Inr ''function Foo() { FooBar(); }'')]"

definition foo_report :: report where
  "foo_report =
     \<lparr>report_summary = \<lparr>files_analyzed = 1, total_definitions = 1, total_calls = 2,
        n_undefined_functions = 0, n_undefined_classes = 0\<rparr>,
      undefined_functions = [], undefined_classes = [], definitions_list = [''Foo'']\<rparr>"

definition bar_project :: "project_file list" where
  "bar_project = [(''Code.gs'', Inr ''function foo() { bar(); }'')]"

definition bar_report :: report where
  "bar_report =
     \<lparr>report_summary = \<lparr>files_analyzed = 1, total_definitions = 1, total_calls = 2,
        n_undefined_functions = 1, n_undefined_classes = 0\<rparr>,
      undefined_functions = [(''bar'', [\<lparr>loc_file = ''Code.gs'', loc_line = 1\<rparr>])],
      undefined_classes = [], definitions_list = [''foo'']\<rparr>"

text \<open>
  The entries of the three result lists together, and the files a URL was found in: the
  file of each of its occurrences, in the order the occurrences were found.
\<close>

definition all_results :: "results \<Rightarrow> url_result list" where
  "all_results rs = r_success rs @ r_fail rs @ r_skip rs"

definition found_in :: "(string \<times> string) list \<Rightarrow> string \<Rightarrow> string list" where
  "found_in us url = map snd (filter (\<lambda>x. fst x = url) us)"

text \<open>
  Worlds to run the link checker in: one where every host is the placeholder host, one
  where every probe is answered with status 404, one where every probe is answered with
  status 200. Two projects: one whose only file holds the same URL twice, one where two
  files hold the same URL and a third cannot be read.
\<close>

definition placeholder_world :: world where
  "placeholder_world =
     \<lparr>urlparse_hostname = (\<lambda>u. Inr (Some ''example.com'')), requests_head = (\<lambda>u. Inr 200)\<rparr>"

definition not_found_world :: world where
  "not_found_world =
     \<lparr>urlparse_hostname = (\<lambda>u. Inr (Some ''gone.test'')), requests_head = (\<lambda>u. Inr 404)\<rparr>"

definition ok_world :: world where
  "ok_world =
     \<lparr>urlparse_hostname = (\<lambda>u. Inr (Some ''a.test'')), requests_head = (\<lambda>u. Inr 200)\<rparr>"

definition twice_project :: "project_file list" where
  "twice_project = [(''README.md'', Inr ''see http://a.test/x and http://a.test/x.'')]"

definition twice_results :: results where
  "twice_results =
     \<lparr>r_success = [\<lparr>res_url = ''http://a.test/x'', res_files = [''README.md'', ''README.md''],
        res_status = success, res_message = ''Status: 200''\<rparr>],
      r_fail = [], r_skip = []\<rparr>"

definition shared_project :: "project_file list" where
  "shared_project = [(''a.gs'', Inr ''u = http://a.test/x;''),
     (''b.md'', Inr ''(http://a.test/x)''), (''c.html'', Inl (IOError ''denied''))]"

definition shared_results :: results where
  "shared_results =
     \<lparr>r_success = [\<lparr>res_url = ''http://a.test/x'', res_files = [''a.gs'', ''b.md''],
        res_status = success, res_message = ''Status: 200''\<rparr>],
      r_fail = [], r_skip = []\<rparr>"

section \<open>What the patterns are run on\<close>




text \<open>
  \<open>set_order\<close> lists a set when it gives each element of the set once and nothing else,
  as the iteration of a Python set does; \<open>iterated_as ds\<close> is the order of a run that
  iterates its set of definitions as the list \<open>ds\<close>.
\<close>

definition iterated_as :: "string list \<Rightarrow> string set \<Rightarrow> string list" where
  "iterated_as ds S = ds"

definition lists_set :: "(string set \<Rightarrow> string list) \<Rightarrow> string set \<Rightarrow> bool" where
  "lists_set set_order S = (set (set_order S) = S \<and> distinct (set_order S))"

text \<open>
  Script texts: a block comment that holds a call and a URL; a comment of two lines followed
  by a call; an \<open>if\<close> inside the callback of a call; an \<open>if\<close> in the body of a function.
\<close>

definition url_comment :: string where
  "url_comment = ''/* bar() is old, see http://x.test */''"

definition header_file :: string where
  "header_file = ''/* a'' @ [NL] @ '' b */'' @ [NL] @ ''foo();''"




definition two_project :: "project_file list" where
  "two_project = [(''Code.gs'', Inr ''function f() {} function g() {}'')]"

definition two_report :: "string list \<Rightarrow> report" where
  "two_report ds =
     \<lparr>report_summary = \<lparr>files_analyzed = 1, total_definitions = 2, total_calls = 2,
        n_undefined_functions = 0, n_undefined_classes = 0\<rparr>,
      undefined_functions = [], undefined_classes = [], definitions_list = ds\<rparr>"


text \<open>A pattern is \<open>consuming\<close> when, by its shape, no match of it is empty.\<close>

fun consuming :: "rx \<Rightarrow> bool" where
  "consuming (Lit l) = (l \<noteq> [])"
| "consuming (Star cl) = False"
| "consuming (Plus cl) = True"
| "consuming (LazyStar cl) = False"
| "consuming (Opt r) = False"
| "consuming (Alt a b) = (consuming a \<and> consuming b)"
| "consuming (Seq a b) = (consuming a \<or> consuming b)"
| "consuming (Grp r) = consuming r"
| "consuming Eol = False"

section \<open>The link checker's probe\<close>

text \<open>
  C7. For every URL, \<open>test_url\<close> returns a pair whose status is one of skip, fail and
  success, and raises nothing: whatever \<open>urlparse\<close> or \<open>requests.head\<close> raise is caught.
  The status is skip exactly when the parsed hostname is one of the three local or
  placeholder names; success exactly when the host is another one and the probe is answered
  with a status below 400; fail exactly when parsing or the probe raised (a timeout, a
  connection error, any other exception) or the probe was answered with a status of 400
  or more.
\<close>

theorem test_url_classifies:
  "\<exists>st msg. test_url w url = Inr (st, msg) \<and> st \<in> {skip, fail, success} \<and>
     (st = skip \<longleftrightarrow>
        (\<exists>h. urlparse_hostname w url = Inr h \<and> h \<in> set (map Some local_hosts))) \<and>
     (st = success \<longleftrightarrow>
        (\<exists>h c. urlparse_hostname w url = Inr h \<and> h \<notin> set (map Some local_hosts) \<and>
           requests_head w (probed_url url) = Inr c \<and> c < 400)) \<and>
     (st = fail \<longleftrightarrow>
        (\<exists>e. urlparse_hostname w url = Inl e) \<or>
        (\<exists>h. urlparse_hostname w url = Inr h \<and> h \<notin> set (map Some local_hosts) \<and>
           ((\<exists>e. requests_head w (probed_url url) = Inl e) \<or>
            (\<exists>c. requests_head w (probed_url url) = Inr c \<and> 400 \<le> c))))"
  by (cases "urlparse_hostname w url"; cases "requests_head w (probed_url url)")
     (auto simp: test_url_def test_url_try_def)

theorem test_url_classifies_witness:
  "\<exists>msg. test_url placeholder_world ''http://example.com'' = Inr (skip, msg)"
  using test_url_classifies [of placeholder_world "''http://example.com''"]
  by (auto simp: placeholder_world_def local_hosts_def)

text \<open>
  C8. When the probe of a URL is answered with an HTTP response, the URL is classified
  success if the status code is below 400 and fail if it is 400 or more, and the message
  is \<open>Status:\<close> followed by the status code in decimal.
\<close>

theorem test_url_http_response:
  assumes "urlparse_hostname w url = Inr h" and "h \<notin> set (map Some local_hosts)"
    and "requests_head w (probed_url url) = Inr c"
  shows "test_url w url = Inr (if c < 400 then success else fail, ''Status: '' @ str_int c)"
  using assms by (simp add: test_url_def test_url_try_def)

theorem test_url_http_response_witness:
  "test_url not_found_world ''http://gone.test/page'' = Inr (fail, ''Status: 404'')"
proof -
  have h: "urlparse_hostname not_found_world ''http://gone.test/page'' = Inr (Some ''gone.test'')"
    by (simp add: not_found_world_def)
  have l: "Some ''gone.test'' \<notin> set (map Some local_hosts)"
    by (simp add: local_hosts_def)
  have r: "requests_head not_found_world (probed_url ''http://gone.test/page'') = Inr 404"
    by (simp add: not_found_world_def)
  have s: "str_int 404 = ''404''"
    by code_simp
  show ?thesis
    using test_url_http_response [OF h l r] s by simp
qed

section \<open>The analyzer's aggregation\<close>

subsection \<open>Dictionaries of lists\<close>

lemma keys_dict_append: "fst ` set (dict_append d k v) = insert k (fst ` set d)"
  by (induction d k v rule: dict_append.induct) auto

lemma distinct_dict_append:
  "distinct (map fst d) \<Longrightarrow> distinct (map fst (dict_append d k v))"
proof (induction d k v rule: dict_append.induct)
  case (1 k v)
  show ?case by simp
next
  case (2 k' vs d k v)
  have "fst ` set (dict_append d k v) = insert k (fst ` set d)"
    by (rule keys_dict_append)
  with 2 show ?case by auto
qed

lemma keys_foldl_dict_append:
  "fst ` set (foldl (\<lambda>d x. dict_append d (kf x) (vf x)) d xs) = fst ` set d \<union> kf ` set xs"
  by (induction xs arbitrary: d) (auto simp: keys_dict_append)

lemma distinct_foldl_dict_append:
  "distinct (map fst d) \<Longrightarrow> distinct (map fst (foldl (\<lambda>d x. dict_append d (kf x) (vf x)) d xs))"
  by (induction xs arbitrary: d) (auto simp: distinct_dict_append)

lemma keys_track_calls:
  "fst ` set (track_calls p d cs) = fst ` set d \<union> call_name ` set cs"
  unfolding track_calls_def by (rule keys_foldl_dict_append)

lemma distinct_track_calls:
  "distinct (map fst d) \<Longrightarrow> distinct (map fst (track_calls p d cs))"
  unfolding track_calls_def by (rule distinct_foldl_dict_append)

lemma keys_track_refs:
  "fst ` set (track_refs p d rs) = fst ` set d \<union> ref_name ` set rs"
  unfolding track_refs_def by (rule keys_foldl_dict_append)

lemma distinct_track_refs:
  "distinct (map fst d) \<Longrightarrow> distinct (map fst (track_refs p d rs))"
  unfolding track_refs_def by (rule distinct_foldl_dict_append)

lemma first_pass_collects:
  "first_pass st fs = Inr st' \<Longrightarrow>
     all_definitions st' = all_definitions st \<union> project_definitions fs \<and>
     fst ` set (all_calls st') = fst ` set (all_calls st) \<union> called_names fs \<and>
     fst ` set (all_class_refs st') = fst ` set (all_class_refs st) \<union> referenced_classes fs \<and>
     (distinct (map fst (all_calls st)) \<longrightarrow> distinct (map fst (all_calls st'))) \<and>
     (distinct (map fst (all_class_refs st)) \<longrightarrow> distinct (map fst (all_class_refs st')))"
proof (induction fs arbitrary: st)
  case Nil
  then show ?case
    by (simp add: project_definitions_def called_names_def referenced_classes_def)
next
  case (Cons f fs)
  obtain p rd where f: "f = (p, rd)" by (cases f)
  from Cons.prems f obtain body where rd: "rd = Inr body"
    by (cases rd) (auto simp: analyze_file_def)
  let ?a = "analyze_content body"
  let ?st = "\<lparr>all_definitions = all_definitions st \<union> definitions ?a,
             all_calls = track_calls p (all_calls st) (calls ?a),
             all_class_refs = track_refs p (all_class_refs st) (class_references ?a),
             file_definitions = dict_set (file_definitions st) p (definitions ?a)\<rparr>"
  from Cons.prems f rd have "first_pass ?st fs = Inr st'"
    by (simp add: analyze_file_def)
  from Cons.IH [OF this] show ?case
    by (auto simp: f rd project_definitions_def called_names_def referenced_classes_def
        keys_track_calls keys_track_refs distinct_track_calls distinct_track_refs)
qed


lemma first_pass_keys:
  assumes "first_pass empty_collected fs = Inr st"
  shows "all_definitions st = project_definitions fs"
    and "fst ` set (all_calls st) = called_names fs"
    and "fst ` set (all_class_refs st) = referenced_classes fs"
    and "distinct (map fst (all_calls st))"
    and "distinct (map fst (all_class_refs st))"
  using first_pass_collects [OF assms] by (simp_all add: empty_collected_def)

lemma keys_find_undefined_functions:
  "fst ` set (find_undefined_functions defs cs) =
     {n \<in> fst ` set cs. n \<notin> defs \<and> n \<notin> gas_builtins \<and> \<not> (\<exists>d\<in>defs. prefix d n)}"
  by (force simp: find_undefined_functions_def is_method_def startswith_def)




lemma foo_analysis:
  "analyze_content ''function Foo() { FooBar(); }'' =
     \<lparr>definitions = {''Foo''},
      calls = [\<lparr>call_name = ''Foo'', call_line = 1\<rparr>, \<lparr>call_name = ''FooBar'', call_line = 1\<rparr>],
      class_references = []\<rparr>"
  by code_simp

lemma bar_analysis:
  "analyze_content ''function foo() { bar(); }'' =
     \<lparr>definitions = {''foo''},
      calls = [\<lparr>call_name = ''foo'', call_line = 1\<rparr>, \<lparr>call_name = ''bar'', call_line = 1\<rparr>],
      class_references = []\<rparr>"
  by code_simp

lemma foo_run: "analyzer_main (iterated_as [''Foo'']) foo_project = Inr (foo_report, 0)"
  by code_simp

lemma bar_run: "analyzer_main (iterated_as [''foo'']) bar_project = Inr (bar_report, 1)"
  by code_simp

subsection \<open>Undefined functions\<close>

text \<open>
  C1, as the code has it. For every run that gets to its report, a name is among the
  undefined functions exactly when some file calls it, no file defines it, it is not in the
  builtin allowlist, and no defined name is a prefix of it. (The claim words the last
  condition the other way round: the name is not a prefix of a defined name.)
\<close>

theorem undefined_iff:
  assumes "analyzer_main set_order fs = Inr (rep, code)"
  shows "n \<in> fst ` set (undefined_functions rep) \<longleftrightarrow>
         n \<in> called_names fs \<and> n \<notin> project_definitions fs \<and> n \<notin> gas_builtins \<and>
         \<not> (\<exists>d\<in>project_definitions fs. prefix d n)"
proof -
  from assms obtain st where st: "first_pass empty_collected fs = Inr st"
    and rep: "undefined_functions rep = find_undefined_functions (all_definitions st) (all_calls st)"
    by (auto simp: analyzer_main_def Let_def split: sum.splits)
  show ?thesis
    unfolding rep keys_find_undefined_functions
    using first_pass_keys(1,2) [OF st] by simp
qed

theorem undefined_iff_witness:
  "analyzer_main (iterated_as [''foo'']) bar_project = Inr (bar_report, 1) \<and>
   ''bar'' \<in> fst ` set (undefined_functions bar_report)"
proof -
  have c: "''bar'' \<in> called_names bar_project"
    by (simp add: called_names_def bar_project_def bar_analysis)
  have d: "project_definitions bar_project = {''foo''}"
    by (simp add: project_definitions_def bar_project_def bar_analysis)
  have b: "''bar'' \<notin> gas_builtins"
    by (simp add: gas_builtins_def)
  from undefined_iff [OF bar_run, of "''bar''"] c d b
  have "''bar'' \<in> fst ` set (undefined_functions bar_report)" by simp
  with bar_run show ?thesis by simp
qed

text \<open>
  The claim C1 as it is worded fails on a project whose one file is
  \<open>function Foo() { FooBar(); }\<close>: \<open>FooBar\<close> is called, it is not defined, it is not in the
  allowlist and it is not a prefix of the one defined name \<open>Foo\<close>, yet the run reports no
  undefined function, because \<open>Foo\<close> is a prefix of \<open>FooBar\<close>.
\<close>

theorem undefined_iff_counterexample:
  "analyzer_main (iterated_as [''Foo'']) foo_project = Inr (foo_report, 0) \<and>
   ''FooBar'' \<notin> fst ` set (undefined_functions foo_report) \<and>
   ''FooBar'' \<in> called_names foo_project \<and>
   project_definitions foo_project = {''Foo''} \<and>
   ''FooBar'' \<notin> gas_builtins \<and>
   \<not> prefix ''FooBar'' ''Foo''"
proof -
  have "''FooBar'' \<in> called_names foo_project"
    by (simp add: called_names_def foo_project_def foo_analysis)
  moreover have "project_definitions foo_project = {''Foo''}"
    by (simp add: project_definitions_def foo_project_def foo_analysis)
  moreover have "''FooBar'' \<notin> gas_builtins"
    by (simp add: gas_builtins_def)
  moreover have "''FooBar'' \<notin> fst ` set (undefined_functions foo_report)"
    by (simp add: foo_report_def)
  ultimately show ?thesis
    using foo_run by simp
qed

text \<open>
  C3. When some file defines a name \<open>c\<close> and a called name \<open>n\<close> starts with \<open>c\<close>, \<open>n\<close> is
  not among the undefined functions of the run; one such definition is enough, whatever
  else is defined.
\<close>

theorem prefix_suppresses:
  assumes "analyzer_main set_order fs = Inr (rep, code)"
    and "c \<in> project_definitions fs" and "prefix c n"
  shows "n \<notin> fst ` set (undefined_functions rep)"
proof -
  from assms(1) obtain st where st: "first_pass empty_collected fs = Inr st"
    and rep: "undefined_functions rep = find_undefined_functions (all_definitions st) (all_calls st)"
    by (auto simp: analyzer_main_def Let_def split: sum.splits)
  show ?thesis
    unfolding rep keys_find_undefined_functions
    using first_pass_keys(1) [OF st] assms(2,3) by auto
qed

theorem prefix_suppresses_witness:
  "''Foo'' \<in> project_definitions foo_project \<and> prefix ''Foo'' ''FooBar'' \<and>
   ''FooBar'' \<in> called_names foo_project \<and> ''FooBar'' \<notin> project_definitions foo_project \<and>
   ''FooBar'' \<notin> gas_builtins \<and>
   analyzer_main (iterated_as [''Foo'']) foo_project = Inr (foo_report, 0) \<and>
   ''FooBar'' \<notin> fst ` set (undefined_functions foo_report)"
proof -
  have d: "''Foo'' \<in> project_definitions foo_project"
    and d': "''FooBar'' \<notin> project_definitions foo_project"
    by (simp_all add: project_definitions_def foo_project_def foo_analysis)
  have p: "prefix ''Foo'' ''FooBar''"
    by simp
  have c: "''FooBar'' \<in> called_names foo_project"
    by (simp add: called_names_def foo_project_def foo_analysis)
  have b: "''FooBar'' \<notin> gas_builtins"
    by (simp add: gas_builtins_def)
  from prefix_suppresses [OF foo_run d p] d d' p c b foo_run show ?thesis
    by simp
qed

subsection \<open>The exit status\<close>



section \<open>The link checker's results\<close>

lemma map_of_dict_append:
  "map_of (dict_append d k v) =
     (map_of d)(k \<mapsto> (case map_of d k of None \<Rightarrow> [] | Some vs \<Rightarrow> vs) @ [v])"
  by (induction d k v rule: dict_append.induct) (auto simp: fun_upd_twist)

lemma map_of_unique_urls_aux:
  "map_of (foldl (\<lambda>d (url, filepath). dict_append d url filepath) d us) u =
     (if found_in us u = [] then map_of d u
      else Some ((case map_of d u of None \<Rightarrow> [] | Some vs \<Rightarrow> vs) @ found_in us u))"
proof (induction us arbitrary: d)
  case Nil
  show ?case by (simp add: found_in_def)
next
  case (Cons x us)
  obtain url f where x: "x = (url, f)" by (cases x)
  show ?case
    unfolding x by (simp add: Cons.IH map_of_dict_append found_in_def)
qed

lemma unique_urls_fold:
  "unique_urls us = foldl (\<lambda>d x. dict_append d (fst x) (snd x)) [] us"
  by (simp add: unique_urls_def split_def)

lemma unique_urls_keys: "fst ` set (unique_urls us) = fst ` set us"
  by (simp add: unique_urls_fold keys_foldl_dict_append)

lemma unique_urls_distinct: "distinct (map fst (unique_urls us))"
  by (simp add: unique_urls_fold distinct_foldl_dict_append)

lemma unique_urls_files:
  assumes "(u, fs) \<in> set (unique_urls us)"
  shows "fs = found_in us u"
proof -
  from assms unique_urls_distinct have "map_of (unique_urls us) u = Some fs"
    by simp
  then show ?thesis
    by (simp add: unique_urls_def map_of_unique_urls_aux split: if_splits)
qed

lemma count_add_result:
  "length (filter P (all_results (add_result rs r))) =
     length (filter P (all_results rs)) + (if P r then 1 else 0)"
  by (cases "res_status r") (simp_all add: all_results_def add_result_def)

lemma set_add_result:
  "set (all_results (add_result rs r)) = insert r (set (all_results rs))"
  by (cases "res_status r") (auto simp: all_results_def add_result_def)

lemma test_url_returns: "\<exists>st msg. test_url w url = Inr (st, msg)"
  by (auto simp: test_url_def split: sum.splits)

lemma test_all_returns: "\<exists>rs'. test_all w rs us = Inr rs'"
proof (induction us arbitrary: rs)
  case Nil
  show ?case by simp
next
  case (Cons x us)
  obtain url fs where x: "x = (url, fs)" by (cases x)
  from test_url_returns obtain st msg where "test_url w url = Inr (st, msg)" by blast
  then show ?case
    unfolding x using Cons.IH by simp
qed

lemma test_all_count:
  "test_all w rs us = Inr rs' \<Longrightarrow>
   length (filter (\<lambda>r. res_url r = u) (all_results rs')) =
     length (filter (\<lambda>r. res_url r = u) (all_results rs)) +
     length (filter (\<lambda>x. fst x = u) us)"
proof (induction us arbitrary: rs)
  case Nil
  then show ?case by simp
next
  case (Cons x us)
  obtain url fs where x: "x = (url, fs)" by (cases x)
  from test_url_returns obtain st msg where t: "test_url w url = Inr (st, msg)" by blast
  let ?r = "\<lparr>res_url = url, res_files = fs, res_status = st, res_message = msg\<rparr>"
  from Cons.prems x t have "test_all w (add_result rs ?r) us = Inr rs'"
    by simp
  from Cons.IH [OF this] show ?case
    by (simp add: x count_add_result)
qed

lemma test_all_files:
  "test_all w rs us = Inr rs' \<Longrightarrow>
   (\<lambda>r. (res_url r, res_files r)) ` set (all_results rs') =
     (\<lambda>r. (res_url r, res_files r)) ` set (all_results rs) \<union> set us"
proof (induction us arbitrary: rs)
  case Nil
  then show ?case by simp
next
  case (Cons x us)
  obtain url fs where x: "x = (url, fs)" by (cases x)
  from test_url_returns obtain st msg where t: "test_url w url = Inr (st, msg)" by blast
  let ?r = "\<lparr>res_url = url, res_files = fs, res_status = st, res_message = msg\<rparr>"
  from Cons.prems x t have "test_all w (add_result rs ?r) us = Inr rs'"
    by simp
  from Cons.IH [OF this] show ?case
    by (simp add: x set_add_result)
qed

lemma count_distinct_key:
  "distinct (map fst xs) \<Longrightarrow>
   length (filter (\<lambda>x. fst x = u) xs) = (if u \<in> fst ` set xs then 1 else 0)"
  by (induction xs) (auto simp: rev_image_eqI)

lemma twice_run: "url_test_main ok_world twice_project = Inr (twice_results, 0)"
  by code_simp

lemma shared_run: "url_test_main ok_world shared_project = Inr (shared_results, 0)"
  by code_simp

lemma shared_urls:
  "all_urls shared_project = [(''http://a.test/x'', ''a.gs''), (''http://a.test/x'', ''b.md'')]"
  by code_simp

text \<open>
  C9, as the code has it. Every run of the link checker gets to its results. Each cleaned
  URL found in some file has exactly one entry across the three result lists, a string
  found in no file has none, and the \<open>files\<close> array of an entry lists the file of every
  occurrence of its URL, in the order found: every file the URL was found in is in it, once
  for each occurrence of the URL in that file.
\<close>

theorem url_once:
  "\<exists>rs code. url_test_main w fs = Inr (rs, code) \<and>
     (\<forall>u. length (filter (\<lambda>r. res_url r = u) (all_results rs)) =
            (if u \<in> fst ` set (all_urls fs) then 1 else 0)) \<and>
     (\<forall>r\<in>set (all_results rs). res_files r = found_in (all_urls fs) (res_url r))"
proof -
  let ?us = "unique_urls (all_urls fs)"
  let ?e = "\<lparr>r_success = [], r_fail = [], r_skip = []\<rparr>"
  from test_all_returns obtain rs where rs: "test_all w ?e ?us = Inr rs" by blast
  have once: "length (filter (\<lambda>r. res_url r = u) (all_results rs)) =
            (if u \<in> fst ` set (all_urls fs) then 1 else 0)" for u
  proof -
    have "length (filter (\<lambda>x. fst x = u) ?us) = (if u \<in> fst ` set ?us then 1 else 0)"
      by (rule count_distinct_key [OF unique_urls_distinct])
    then show ?thesis
      using test_all_count [OF rs, of u] by (simp add: all_results_def unique_urls_keys)
  qed
  have files: "res_files r = found_in (all_urls fs) (res_url r)" if "r \<in> set (all_results rs)" for r
  proof -
    from that have "(res_url r, res_files r) \<in> (\<lambda>r. (res_url r, res_files r)) ` set (all_results rs)"
      by (rule imageI)
    then have "(res_url r, res_files r) \<in> set ?us"
      using test_all_files [OF rs] by (simp add: all_results_def)
    then show ?thesis by (rule unique_urls_files)
  qed
  from rs once files show ?thesis
    by (auto simp: url_test_main_def)
qed

theorem url_once_witness:
  "url_test_main ok_world shared_project = Inr (shared_results, 0) \<and>
   length (filter (\<lambda>r. res_url r = ''http://a.test/x'') (all_results shared_results)) = 1 \<and>
   list_all (\<lambda>r. res_files r = [''a.gs'', ''b.md'']) (all_results shared_results)"
proof -
  from url_once [of ok_world shared_project] shared_run
  have once: "\<forall>u. length (filter (\<lambda>r. res_url r = u) (all_results shared_results)) =
            (if u \<in> fst ` set (all_urls shared_project) then 1 else 0)"
    and files: "\<forall>r\<in>set (all_results shared_results).
      res_files r = found_in (all_urls shared_project) (res_url r)"
    by auto
  have u: "''http://a.test/x'' \<in> fst ` set (all_urls shared_project)"
    by (simp add: shared_urls)
  have f: "found_in (all_urls shared_project) ''http://a.test/x'' = [''a.gs'', ''b.md'']"
    by (simp add: shared_urls found_in_def)
  have r: "\<forall>r\<in>set (all_results shared_results). res_url r = ''http://a.test/x''"
    by (simp add: all_results_def shared_results_def)
  from once u have "length (filter (\<lambda>r. res_url r = ''http://a.test/x'') (all_results shared_results)) = 1"
    by simp
  moreover from files r f have "list_all (\<lambda>r. res_files r = [''a.gs'', ''b.md'']) (all_results shared_results)"
    by (simp add: list_all_iff)
  ultimately show ?thesis
    using shared_run by simp
qed

text \<open>
  The claim C9 as it is worded fails on a project whose one file holds the same URL twice:
  the entry of the URL names that file twice.
\<close>

theorem url_files_counterexample:
  "url_test_main ok_world twice_project = Inr (twice_results, 0) \<and>
   map res_files (all_results twice_results) = [[''README.md'', ''README.md'']] \<and>
   \<not> distinct [''README.md'', ''README.md'']"
  using twice_run by (simp add: all_results_def twice_results_def)

section \<open>Extraction\<close>

subsection \<open>Comments\<close>

text \<open>
  C4. The text \<open>/* bar() is old, see http://x.test */\<close> is one block comment and nothing
  else. The line-comment pattern is run first and deletes from the \<open>//\<close> of the URL to the
  end of the line, the closing \<open>*/\<close> with it; the block-comment pattern then finds no
  comment, and the call \<open>bar()\<close> of the comment is extracted.
\<close>

theorem comment_call_extracted:
  "url_comment = ''/*'' @ '' bar() is old, see http://x.test '' @ ''*/'' \<and>
   \<not> contains ''*/'' '' bar() is old, see http://x.test '' \<and>
   strip_comments url_comment = ''/* bar() is old, see http:'' \<and>
   calls (analyze_content url_comment) = [\<lparr>call_name = ''bar'', call_line = 1\<rparr>]"
  by code_simp

subsection \<open>Line numbers\<close>

text \<open>
  C5. In the file whose lines are \<open>/* a\<close>, \<open> b */\<close> and \<open>foo();\<close> the call is on line 3:
  it starts at offset 11, after two newlines. The block comment is deleted with the newline
  inside it before the newlines are counted, and the call is recorded on line 2.
\<close>

theorem line_number_shifted:
  "drop 11 header_file = ''foo();'' \<and>
   line_of header_file 11 = 3 \<and>
   strip_comments header_file = [NL] @ ''foo();'' \<and>
   calls (analyze_content header_file) = [\<lparr>call_name = ''foo'', call_line = 2\<rparr>]"
  by code_simp

subsection \<open>Keywords as definitions\<close>

lemma lit_append: "lit l k (l @ s) = k s"
  by (induction l) simp_all

















section \<open>Two runs on the same files\<close>

lemma two_run: "analyzer_main (iterated_as ds) two_project = Inr (two_report ds, 0)"
proof -
  have "analyzer_main (iterated_as []) two_project = Inr (two_report [], 0)"
    by code_simp
  then show ?thesis
    by (auto simp: analyzer_main_def Let_def two_report_def iterated_as_def split: sum.splits)
qed

lemma two_definitions: "project_definitions two_project = {''f'', ''g''}"
proof -
  have "definitions (analyze_content ''function f() {} function g() {}'') = {''f'', ''g''}"
    by code_simp
  then show ?thesis
    by (simp add: project_definitions_def two_project_def)
qed

text \<open>
  C6, as the code has it. Two runs on the same files, whatever the order in which each
  lists the set of definitions: if one gets to its report so does the other, with the same
  exit code and the same report but for \<open>all_definitions\<close>, which holds the same names,
  each once, in the order of the run.
\<close>

theorem runs_agree:
  assumes "lists_set order1 (project_definitions fs)"
    and "lists_set order2 (project_definitions fs)"
    and "analyzer_main order1 fs = Inr (rep1, code1)"
  shows "\<exists>rep2. analyzer_main order2 fs = Inr (rep2, code1) \<and>
     rep2 = rep1\<lparr>definitions_list := definitions_list rep2\<rparr> \<and>
     set (definitions_list rep2) = set (definitions_list rep1) \<and>
     distinct (definitions_list rep1) \<and> distinct (definitions_list rep2)"
proof -
  from assms(3) obtain st where st: "first_pass empty_collected fs = Inr st"
    by (auto simp: analyzer_main_def split: sum.splits)
  note k = first_pass_keys(1) [OF st]
  from assms(3) st have l1: "definitions_list rep1 = order1 (project_definitions fs)"
    by (auto simp: analyzer_main_def Let_def k)
  from assms(3) st show ?thesis
    using assms(1,2) unfolding l1
    by (auto simp: analyzer_main_def Let_def k lists_set_def)
qed

theorem runs_agree_witness:
  "lists_set (iterated_as [''f'', ''g'']) (project_definitions two_project) \<and>
   lists_set (iterated_as [''g'', ''f'']) (project_definitions two_project) \<and>
   analyzer_main (iterated_as [''f'', ''g'']) two_project = Inr (two_report [''f'', ''g''], 0) \<and>
   (\<exists>rep2. analyzer_main (iterated_as [''g'', ''f'']) two_project = Inr (rep2, 0) \<and>
      rep2 = (two_report [''f'', ''g''])\<lparr>definitions_list := definitions_list rep2\<rparr> \<and>
      set (definitions_list rep2) = set (definitions_list (two_report [''f'', ''g''])))"
proof -
  have o1: "lists_set (iterated_as [''f'', ''g'']) (project_definitions two_project)"
    and o2: "lists_set (iterated_as [''g'', ''f'']) (project_definitions two_project)"
    by (auto simp: lists_set_def iterated_as_def two_definitions)
  from runs_agree [OF o1 o2 two_run] o1 o2 two_run show ?thesis
    by blast
qed

text \<open>
  The claim C6 as it is worded fails on a project that defines \<open>f\<close> and \<open>g\<close>: a run that
  iterates the set of definitions as \<open>f\<close>, \<open>g\<close> and a run that iterates it as \<open>g\<close>, \<open>f\<close>
  write reports that differ in the array \<open>all_definitions\<close>, which is not a map.
\<close>

theorem runs_differ_counterexample:
  "lists_set (iterated_as [''f'', ''g'']) (project_definitions two_project) \<and>
   lists_set (iterated_as [''g'', ''f'']) (project_definitions two_project) \<and>
   analyzer_main (iterated_as [''f'', ''g'']) two_project = Inr (two_report [''f'', ''g''], 0) \<and>
   analyzer_main (iterated_as [''g'', ''f'']) two_project = Inr (two_report [''g'', ''f''], 0) \<and>
   two_report [''f'', ''g''] \<noteq> two_report [''g'', ''f'']"
  using two_run by (auto simp: lists_set_def iterated_as_def two_definitions two_report_def)

section \<open>The patterns consume text\<close>

text \<open>
  Whenever a pattern matches, its continuation was run on a text no longer than the one the
  match started on, with the groups captured before still in place; on a shorter text when
  the pattern is consuming. So no match of a pattern of the two scripts is empty, which is
  what \<open>finditer\<close> and \<open>sub_empty\<close> above are written for, and group 1 of a match of
  \<open>(\w+)\.(\w+)\<close> has a first character for \<open>class_name[0]\<close> to read.
\<close>

lemma lit_some:
  "lit l k s = Some res \<Longrightarrow> \<exists>s'. k s' = Some res \<and> length s' + length l = length s"
  by (induction l k s rule: lit.induct) (auto split: if_splits)

lemma star_greedy_some:
  "star_greedy cl k s = Some res \<Longrightarrow> \<exists>s'. k s' = Some res \<and> length s' \<le> length s"
proof (induction cl k s rule: star_greedy.induct)
  case (1 cl k)
  then show ?case by auto
next
  case (2 cl k x s)
  show ?case
  proof (cases "in_class cl x \<and> star_greedy cl k s \<noteq> None")
    case True
    with 2 obtain s' where "k s' = Some res" and "length s' \<le> length s" by auto
    then show ?thesis by (intro exI [of _ s']) simp
  next
    case False
    with "2.prems" have "k (x # s) = Some res"
      by (auto split: if_splits option.splits)
    then show ?thesis by (intro exI [of _ "x # s"]) simp
  qed
qed

lemma star_lazy_some:
  "star_lazy cl k s = Some res \<Longrightarrow> \<exists>s'. k s' = Some res \<and> length s' \<le> length s"
proof (induction cl k s rule: star_lazy.induct)
  case (1 cl k)
  then show ?case by auto
next
  case (2 cl k x s)
  show ?case
  proof (cases "k (x # s)")
    case None
    with 2 obtain s' where "k s' = Some res" and "length s' \<le> length s"
      by (auto split: if_splits)
    then show ?thesis by (intro exI [of _ s']) simp
  next
    case (Some r)
    with "2.prems" have "k (x # s) = Some res" by simp
    then show ?thesis by (intro exI [of _ "x # s"]) simp
  qed
qed

lemma plus_greedy_some:
  "plus_greedy cl k s = Some res \<Longrightarrow> \<exists>s'. k s' = Some res \<and> length s' < length s"
proof (cases s)
  case Nil
  assume "plus_greedy cl k s = Some res"
  with Nil show ?thesis by simp
next
  case (Cons x xs)
  assume "plus_greedy cl k s = Some res"
  with Cons have "star_greedy cl k xs = Some res" by (simp split: if_splits)
  from star_greedy_some [OF this] Cons show ?thesis by auto
qed

lemma rmatch_some:
  "rmatch r k caps s = Some res \<Longrightarrow>
   \<exists>caps' s'. k caps' s' = Some res \<and> prefix caps caps' \<and> length s' \<le> length s \<and>
     (consuming r \<longrightarrow> length s' < length s)"
proof (induction r arbitrary: k caps s)
  case (Lit l)
  from lit_some [of l "k caps" s res] Lit obtain s'
    where "k caps s' = Some res" and "length s' + length l = length s" by auto
  moreover from this(2) have "length s' \<le> length s"
    and "consuming (Lit l) \<longrightarrow> length s' < length s"
    by (cases l; simp)+
  ultimately show ?case by (intro exI [of _ caps] exI [of _ s']) simp
next
  case (Star cl)
  from star_greedy_some [of cl "k caps" s res] Star obtain s'
    where "k caps s' = Some res" and "length s' \<le> length s" by auto
  then show ?case by (intro exI [of _ caps] exI [of _ s']) simp
next
  case (Plus cl)
  from plus_greedy_some [of cl "k caps" s res] Plus obtain s'
    where "k caps s' = Some res" and "length s' < length s" by auto
  then show ?case by (intro exI [of _ caps] exI [of _ s']) simp
next
  case (LazyStar cl)
  from star_lazy_some [of cl "k caps" s res] LazyStar obtain s'
    where "k caps s' = Some res" and "length s' \<le> length s" by auto
  then show ?case by (intro exI [of _ caps] exI [of _ s']) simp
next
  case (Opt r)
  show ?case
  proof (cases "rmatch r k caps s")
    case None
    with Opt.prems have "k caps s = Some res" by simp
    then show ?thesis by (intro exI [of _ caps] exI [of _ s]) simp
  next
    case (Some y)
    with Opt.prems have "rmatch r k caps s = Some res" by simp
    from Opt.IH [OF this] show ?thesis by auto
  qed
next
  case (Alt a b)
  show ?case
  proof (cases "rmatch a k caps s")
    case None
    with Alt.prems have "rmatch b k caps s = Some res" by simp
    from Alt.IH(2) [OF this] show ?thesis by auto
  next
    case (Some y)
    with Alt.prems have "rmatch a k caps s = Some res" by simp
    from Alt.IH(1) [OF this] show ?thesis by auto
  qed
next
  case (Seq a b)
  from Seq.prems have "rmatch a (rmatch b k) caps s = Some res" by simp
  from Seq.IH(1) [OF this] obtain c1 s1
    where b: "rmatch b k c1 s1 = Some res" and p1: "prefix caps c1"
      and l1: "length s1 \<le> length s" and n1: "consuming a \<longrightarrow> length s1 < length s"
    by blast
  from Seq.IH(2) [OF b] obtain c2 s2
    where k: "k c2 s2 = Some res" and p2: "prefix c1 c2"
      and l2: "length s2 \<le> length s1" and n2: "consuming b \<longrightarrow> length s2 < length s1"
    by blast
  from p1 p2 have "prefix caps c2" by (rule prefix_order.trans)
  with k l1 l2 n1 n2 show ?case
    by (intro exI [of _ c2] exI [of _ s2]) auto
next
  case (Grp r)
  let ?k = "\<lambda>caps' s'. k (caps' @ [take (length s - length s') s]) s'"
  from Grp.prems have "rmatch r ?k caps s = Some res" by simp
  from Grp.IH [OF this] obtain c1 s1
    where "?k c1 s1 = Some res" and "prefix caps c1"
      and "length s1 \<le> length s" and "consuming r \<longrightarrow> length s1 < length s"
    by blast
  then show ?case
    by (intro exI [of _ "c1 @ [take (length s - length s1) s]"] exI [of _ s1])
       (auto simp: prefix_def)
next
  case Eol
  then show ?case
    by (intro exI [of _ caps] exI [of _ s]) (auto split: list.splits if_splits)
qed

lemma match_at_consumes:
  assumes "consuming r" and "match_at r s = Some (caps, n)"
  shows "0 < n"
proof -
  from assms(2) obtain s' where r: "rmatch r (\<lambda>caps s'. Some (caps, s')) [] s = Some (caps, s')"
    and n: "n = length s - length s'"
    by (auto simp: match_at_def split: option.splits)
  from rmatch_some [OF r] assms(1) have "length s' < length s" by auto
  with n show ?thesis by simp
qed

lemma patterns_consume:
  "consuming def_pattern1" "consuming def_pattern2" "consuming def_pattern3"
  "consuming def_pattern4" "consuming call_pattern" "consuming ref_pattern1"
  "consuming ref_pattern2" "consuming line_comment" "consuming block_comment"
  "consuming (Grp url_pattern)"
  by (simp_all add: def_pattern1_def def_pattern2_def def_pattern3_def def_pattern4_def
      call_pattern_def ref_pattern1_def ref_pattern2_def line_comment_def block_comment_def
      url_pattern_def)

lemma class_name_not_empty:
  assumes "match_at ref_pattern2 s = Some (caps, n)"
  shows "group 1 caps \<noteq> []"
proof -
  let ?k0 = "\<lambda>caps s'. Some (caps, s')"
  let ?r = "Seq (Lit ''.'') (Grp (Plus Word))"
  from assms obtain rest where r: "rmatch ref_pattern2 ?k0 [] s = Some (caps, rest)"
    by (auto simp: match_at_def split: option.splits)
  then have "plus_greedy Word (\<lambda>s'. rmatch ?r ?k0 [take (length s - length s') s] s') s
      = Some (caps, rest)"
    by (simp add: ref_pattern2_def)
  from plus_greedy_some [OF this] obtain s'
    where m: "rmatch ?r ?k0 [take (length s - length s') s] s' = Some (caps, rest)"
      and l: "length s' < length s"
    by blast
  from rmatch_some [OF m] have "prefix [take (length s - length s') s] caps"
    by auto
  then obtain cs where "caps = take (length s - length s') s # cs"
    by (auto simp: prefix_def)
  with l show ?thesis
    by (cases s) (auto simp: group_def)
qed

end
